theory Spec2Isabelle
  imports Complex_Main
begin

section \<open>Grasp-stability tracking of the Franka arm node\<close>

text \<open>
  A shallow embedding of \<^verbatim>\<open>src/dora_arm_franka/main.py\<close>. Python floats (the gripper
  distance, the readings of \<^verbatim>\<open>time.time()\<close>) are modelled by real numbers: the program
  only compares them and forms one difference, \<^verbatim>\<open>current_time - enter_time\<close>.
  Exceptions are values of \<open>py_exc\<close>; a computation that may raise returns
  \<open>py_exc + 'a\<close>, with \<open>Inl\<close> for the exception.
\<close>

subsection \<open>Constants (lines 10 to 13)\<close>

definition max_gripper_distance :: real where
  "max_gripper_distance = 0.83"

definition max_gripper_catch_distance :: real where
  "max_gripper_catch_distance = 0.7"

definition min_gripper_distance :: real where
  "min_gripper_distance = 0.02"

definition GRASP_STABLE_DURATION :: real where
  "GRASP_STABLE_DURATION = 0.8"

subsection \<open>Exceptions and the tracking state (lines 60 to 64)\<close>

text \<open>
  The exceptions of the model: the one the fetch catches, those of the Python operations
  on the decoded values, and those the array conversion of pyarrow can raise.
\<close>

datatype py_exc =
    RequestException
  | KeyError
  | IndexError
  | TypeError
  | ArrowInvalid
  | ArrowTypeError
  | OverflowError

record grasp_state =
  in_range :: bool
  enter_time :: "real option"
  is_stable_grasp :: bool

definition initial_grasp_state :: grasp_state where
  "initial_grasp_state = \<lparr>in_range = False, enter_time = None, is_stable_grasp = False\<rparr>"

subsection \<open>The state update of one successful tick (lines 76 to 97)\<close>

text \<open>Line 76: the chained comparison, strict on both sides.\<close>

definition cur_in_range :: "real \<Rightarrow> bool" where
  "cur_in_range cur_gripper \<longleftrightarrow>
     min_gripper_distance < cur_gripper \<and> cur_gripper < max_gripper_catch_distance"

text \<open>
  Lines 79 to 94. The subtraction of line 87 raises \<^verbatim>\<open>TypeError\<close> when
  \<^verbatim>\<open>enter_time\<close> is \<^verbatim>\<open>None\<close>; the model keeps that branch.
\<close>

definition update_grasp_state :: "grasp_state \<Rightarrow> real \<Rightarrow> real \<Rightarrow> py_exc + grasp_state" where
  "update_grasp_state gs cur_gripper current_time =
     (if cur_in_range cur_gripper then
        (if \<not> in_range gs then
           Inr (gs\<lparr>enter_time := Some current_time, in_range := True, is_stable_grasp := False\<rparr>)
         else
           (case enter_time gs of
              None \<Rightarrow> Inl TypeError
            | Some entered \<Rightarrow>
                (let duration = current_time - entered in
                 if duration \<ge> GRASP_STABLE_DURATION
                 then Inr (gs\<lparr>is_stable_grasp := True\<rparr>)
                 else Inr gs)))
      else
        Inr (gs\<lparr>in_range := False, enter_time := None, is_stable_grasp := False\<rparr>))"

text \<open>Line 97: \<^verbatim>\<open>1 if grasp_state["is_stable_grasp"] else 0\<close>.\<close>

definition stable_flag :: "grasp_state \<Rightarrow> int" where
  "stable_flag gs = (if is_stable_grasp gs then 1 else 0)"

text \<open>
  The update applied to the successive samples \<open>(distance, time)\<close> of successful ticks,
  collecting the flag computed on each; the first exception ends the run, as it ends the
  process.
\<close>

fun update_seq :: "grasp_state \<Rightarrow> (real \<times> real) list \<Rightarrow> py_exc + int list" where
  "update_seq gs [] = Inr []"
| "update_seq gs ((cur_gripper, current_time) # rest) =
     (case update_grasp_state gs cur_gripper current_time of
        Inl e \<Rightarrow> Inl e
      | Inr gs' \<Rightarrow>
          (case update_seq gs' rest of
             Inl e \<Rightarrow> Inl e
           | Inr flags \<Rightarrow> Inr (stable_flag gs' # flags)))"

text \<open>The invariants of the tracking state.\<close>

definition grasp_inv :: "grasp_state \<Rightarrow> bool" where
  "grasp_inv gs \<longleftrightarrow>
     ((enter_time gs \<noteq> None) = in_range gs) \<and> (is_stable_grasp gs \<longrightarrow> in_range gs)"

subsection \<open>Values decoded from JSON\<close>

text \<open>
  The Python objects that \<^verbatim>\<open>resp.json()\<close> can return: \<^verbatim>\<open>None\<close>, booleans, integers
  (a JSON number without fraction or exponent), floats, strings, lists and dictionaries
  with string keys. A string is a list of characters, one per code point.
\<close>

datatype pyval =
    PNone
  | PBool bool
  | PInt int
  | PFloat real
  | PStr string
  | PList "pyval list"
  | PDict "(string \<times> pyval) list"

text \<open>\<^verbatim>\<open>v[k]\<close> for a string key \<open>k\<close>: only a dictionary accepts it.\<close>

fun getitem_key :: "pyval \<Rightarrow> string \<Rightarrow> py_exc + pyval" where
  "getitem_key (PDict kvs) k = (case map_of kvs k of None \<Rightarrow> Inl KeyError | Some v \<Rightarrow> Inr v)"
| "getitem_key _ k = Inl TypeError"

text \<open>
  \<^verbatim>\<open>v[i]\<close> for a non-negative integer literal \<open>i\<close>: lists and strings are indexed, a
  dictionary of string keys has no such key, anything else is not subscriptable.
\<close>

fun getitem_idx :: "pyval \<Rightarrow> nat \<Rightarrow> py_exc + pyval" where
  "getitem_idx (PList xs) i = (if i < length xs then Inr (xs ! i) else Inl IndexError)"
| "getitem_idx (PStr s) i = (if i < length s then Inr (PStr [s ! i]) else Inl IndexError)"
| "getitem_idx (PDict kvs) i = Inl KeyError"
| "getitem_idx _ i = Inl TypeError"

text \<open>The list display \<^verbatim>\<open>[v[i] for each index in order]\<close>, left to right.\<close>

fun getitems :: "pyval \<Rightarrow> nat list \<Rightarrow> py_exc + pyval list" where
  "getitems v [] = Inr []"
| "getitems v (i # rest) =
     (case getitem_idx v i of
        Inl e \<Rightarrow> Inl e
      | Inr x \<Rightarrow> (case getitems v rest of Inl e \<Rightarrow> Inl e | Inr xs \<Rightarrow> Inr (x # xs)))"

text \<open>
  The operand of an ordering comparison with a float: integers and floats compare by
  value, a boolean counts as 1 or 0, every other value raises \<^verbatim>\<open>TypeError\<close>.
\<close>

fun as_number :: "pyval \<Rightarrow> py_exc + real" where
  "as_number (PInt i) = Inr (of_int i)"
| "as_number (PFloat x) = Inr x"
| "as_number (PBool b) = Inr (if b then 1 else 0)"
| "as_number _ = Inl TypeError"

text \<open>The values that are instances of \<^verbatim>\<open>int\<close>: integers and booleans.\<close>

fun as_int :: "pyval \<Rightarrow> int option" where
  "as_int (PInt i) = Some i"
| "as_int (PBool b) = Some (if b then 1 else 0)"
| "as_int _ = None"

text \<open>
  \<^verbatim>\<open>a + b\<close>: two lists or two strings concatenate, two integers (booleans included) add
  to an integer, other numbers add to a float, every other pair raises \<^verbatim>\<open>TypeError\<close>.
  The program only ever adds lists; the sum of floats is taken over the reals.
\<close>

fun py_add :: "pyval \<Rightarrow> pyval \<Rightarrow> py_exc + pyval" where
  "py_add (PList xs) (PList ys) = Inr (PList (xs @ ys))"
| "py_add (PStr s) (PStr t) = Inr (PStr (s @ t))"
| "py_add a b =
     (case (as_int a, as_int b) of
        (Some i, Some j) \<Rightarrow> Inr (PInt (i + j))
      | _ \<Rightarrow>
          (case as_number a of
             Inl e \<Rightarrow> Inl TypeError
           | Inr x \<Rightarrow>
               (case as_number b of Inl e \<Rightarrow> Inl TypeError | Inr y \<Rightarrow> Inr (PFloat (x + y)))))"

subsection \<open>Fetching the arm data (lines 15 to 48)\<close>

text \<open>
  What one \<^verbatim>\<open>requests.post\<close> call does: it raises a \<^verbatim>\<open>RequestException\<close> (a timeout, a
  connection error), or returns a response with a status code and a body, given here
  as decoded by \<^verbatim>\<open>.json()\<close>. Bodies that are not JSON are outside the model.
\<close>

datatype http_result = RequestFailed | Response int pyval

text \<open>
  What the outside world answers during one tick: the three calls, \<^verbatim>\<open>time.time()\<close> and
  \<^verbatim>\<open>time.time_ns()\<close>.
\<close>

record world =
  joint_resp :: http_result
  gripper_resp :: http_result
  pose_resp :: http_result
  time_now :: real
  time_ns_now :: int

text \<open>
  The dictionary \<^verbatim>\<open>arm_data\<close>. The key \<^verbatim>\<open>"gripper_raw"\<close> is absent until line 33 stores
  it, so its field is optional.
\<close>

record arm_data =
  jointstate :: pyval
  gripper :: pyval
  pose :: pyval
  success :: bool
  gripper_raw :: "pyval option"

definition initial_arm_data :: arm_data where
  "initial_arm_data =
     \<lparr>jointstate = PNone, gripper = PNone, pose = PNone, success = False, gripper_raw = None\<rparr>"

text \<open>
  The statements of the \<^verbatim>\<open>try\<close> block. A statement that raises returns the exception
  together with the dictionary as it was then, since the handler of line 45 returns that
  dictionary.
\<close>

definition get_joint :: "http_result \<Rightarrow> arm_data \<Rightarrow> (py_exc \<times> arm_data) + arm_data" where
  "get_joint joint a =
     (case joint of
        RequestFailed \<Rightarrow> Inl (RequestException, a)
      | Response status_code body \<Rightarrow>
          if status_code = 200 then
            (case getitem_key body ''q'' of
               Inl e \<Rightarrow> Inl (e, a)
             | Inr q \<Rightarrow> Inr (a\<lparr>jointstate := q\<rparr>))
          else Inr a)"

definition get_gripper :: "http_result \<Rightarrow> arm_data \<Rightarrow> (py_exc \<times> arm_data) + arm_data" where
  "get_gripper grip a =
     (case grip of
        RequestFailed \<Rightarrow> Inl (RequestException, a)
      | Response status_code body \<Rightarrow>
          if status_code = 200 then
            (case getitem_key body ''gripper'' of
               Inl e \<Rightarrow> Inl (e, a)
             | Inr g \<Rightarrow> Inr (a\<lparr>gripper_raw := Some g\<rparr>))
          else Inr a)"

definition get_pose :: "http_result \<Rightarrow> arm_data \<Rightarrow> (py_exc \<times> arm_data) + arm_data" where
  "get_pose pos a =
     (case pos of
        RequestFailed \<Rightarrow> Inl (RequestException, a)
      | Response status_code body \<Rightarrow>
          if status_code = 200 then
            (case getitem_key body ''pose'' of
               Inl e \<Rightarrow> Inl (e, a)
             | Inr p \<Rightarrow>
                 (case getitems p [0, 1, 2, 3, 4, 5] of
                    Inl e \<Rightarrow> Inl (e, a)
                  | Inr ps \<Rightarrow> Inr (a\<lparr>pose := PList ps\<rparr>)))
          else Inr a)"

text \<open>Lines 42 and 43; \<^verbatim>\<open>arm_data.get("gripper_raw")\<close> is \<^verbatim>\<open>None\<close> for an absent key.\<close>

definition mark_success :: "arm_data \<Rightarrow> arm_data" where
  "mark_success a =
     (if jointstate a \<noteq> PNone \<and>
         (case gripper_raw a of None \<Rightarrow> PNone | Some g \<Rightarrow> g) \<noteq> PNone \<and>
         pose a \<noteq> PNone
      then a\<lparr>success := True\<rparr> else a)"

definition try_body :: "world \<Rightarrow> arm_data \<Rightarrow> (py_exc \<times> arm_data) + arm_data" where
  "try_body w a =
     (case get_joint (joint_resp w) a of
        Inl x \<Rightarrow> Inl x
      | Inr a1 \<Rightarrow>
          (case get_gripper (gripper_resp w) a1 of
             Inl x \<Rightarrow> Inl x
           | Inr a2 \<Rightarrow>
               (case get_pose (pose_resp w) a2 of
                  Inl x \<Rightarrow> Inl x
                | Inr a3 \<Rightarrow> Inr (mark_success a3))))"

text \<open>
  The handler catches \<^verbatim>\<open>requests.exceptions.RequestException\<close> only (line 45); any
  other exception leaves the function.
\<close>

definition get_arm_data :: "world \<Rightarrow> py_exc + arm_data" where
  "get_arm_data w =
     (case try_body w initial_arm_data of
        Inr a \<Rightarrow> Inr a
      | Inl (e, a) \<Rightarrow> if e = RequestException then Inr a else Inl e)"

subsection \<open>The event loop (lines 66 to 113)\<close>

record event =
  etype :: string
  eid :: string

definition tick_event :: event where
  "tick_event = \<lparr>etype = ''INPUT'', eid = ''tick''\<rparr>"

definition stop_event :: event where
  "stop_event = \<lparr>etype = ''INPUT'', eid = ''stop''\<rparr>"

text \<open>
  \<^verbatim>\<open>pa.array(combined_list, type=pa.float32())\<close> is a call into the pyarrow library,
  which is not part of this program. The model takes the conversion as a parameter
  \<open>pa_array\<close>: given the Python value and the element type asked for, it raises an
  exception or returns an array, of a type \<open>'arr\<close> the model leaves open. The element
  types are those of the floating-point arrays of pyarrow; line 108 asks for
  \<^verbatim>\<open>float32\<close>.
\<close>

datatype arrow_type = Float16 | Float32 | Float64

type_synonym 'arr pa_array = "pyval \<Rightarrow> arrow_type \<Rightarrow> py_exc + 'arr"

text \<open>
  One call of \<^verbatim>\<open>node.send_output\<close>: the output name, the array built by \<^verbatim>\<open>pa.array\<close>
  and the \<^verbatim>\<open>timestamp\<close> entry of the metadata.
\<close>

record 'arr sent_output =
  channel :: string
  payload :: 'arr
  timestamp :: int

text \<open>
  The body of the tick branch, lines 69 to 110. An exception is returned together with
  the tracking state at the moment it is raised: the state as it was when the fetch, the
  comparison of line 76 or the subtraction of line 87 raises, the updated state when the
  concatenation of lines 100 to 104 or the conversion of line 108 raises.
\<close>

definition process_tick ::
  "'arr pa_array \<Rightarrow> grasp_state \<Rightarrow> world \<Rightarrow>
     (py_exc \<times> grasp_state) + (grasp_state \<times> 'arr sent_output list)" where
  "process_tick pa_array gs w =
     (case get_arm_data w of
        Inl e \<Rightarrow> Inl (e, gs)
      | Inr arm \<Rightarrow>
          if success arm then
            (case gripper_raw arm of
               None \<Rightarrow> Inl (KeyError, gs)
             | Some cur_gripper \<Rightarrow>
                 (case as_number cur_gripper of
                    Inl e \<Rightarrow> Inl (e, gs)
                  | Inr distance \<Rightarrow>
                      (case update_grasp_state gs distance (time_now w) of
                         Inl e \<Rightarrow> Inl (e, gs)
                       | Inr gs' \<Rightarrow>
                           (let arm' = arm\<lparr>gripper :=
                                  PList [cur_gripper, PInt (stable_flag gs')]\<rparr>
                            in case py_add (jointstate arm') (gripper arm') of
                                 Inl e \<Rightarrow> Inl (e, gs')
                               | Inr joint_and_gripper \<Rightarrow>
                                   (case py_add joint_and_gripper (pose arm') of
                                      Inl e \<Rightarrow> Inl (e, gs')
                                    | Inr combined_list \<Rightarrow>
                                        (case pa_array combined_list Float32 of
                                           Inl e \<Rightarrow> Inl (e, gs')
                                         | Inr arr \<Rightarrow>
                                             Inr (gs',
                                               [\<lparr>channel = ''jointstate'',
                                                 payload = arr,
                                                 timestamp = time_ns_now w\<rparr>])))))))
          else Inr (gs, []))"

text \<open>
  One iteration of the \<^verbatim>\<open>for\<close> loop. The stop branch (lines 112 and 113) prints a
  message and does nothing else; any other event is ignored.
\<close>

definition handle_event ::
  "'arr pa_array \<Rightarrow> grasp_state \<Rightarrow> event \<Rightarrow> world \<Rightarrow>
     (py_exc \<times> grasp_state) + (grasp_state \<times> 'arr sent_output list)" where
  "handle_event pa_array gs ev w =
     (if etype ev = ''INPUT'' \<and> eid ev = ''tick'' then process_tick pa_array gs w
      else if etype ev = ''INPUT'' \<and> eid ev = ''stop'' then Inr (gs, [])
      else Inr (gs, []))"

text \<open>
  The loop over the events the node delivers, each paired with what the world answers
  while it is handled. The result is the outputs sent, the tracking state when the loop
  ends (at the moment of the exception, when one ends it) and that exception, if any.
\<close>

fun main_loop ::
  "'arr pa_array \<Rightarrow> grasp_state \<Rightarrow> (event \<times> world) list \<Rightarrow>
     'arr sent_output list \<times> grasp_state \<times> py_exc option" where
  "main_loop pa_array gs [] = ([], gs, None)"
| "main_loop pa_array gs ((ev, w) # rest) =
     (case handle_event pa_array gs ev w of
        Inl (e, at_raise) \<Rightarrow> ([], at_raise, Some e)
      | Inr (gs', outs) \<Rightarrow>
          (case main_loop pa_array gs' rest of
             (later, final, raised) \<Rightarrow> (outs @ later, final, raised)))"

definition main ::
  "'arr pa_array \<Rightarrow> (event \<times> world) list \<Rightarrow>
     'arr sent_output list \<times> grasp_state \<times> py_exc option" where
  "main pa_array events = main_loop pa_array initial_grasp_state events"

text \<open>
  A conversion that accepts every value and returns it unchanged with the element type
  asked for. It is not the conversion of pyarrow: it stands for any conversion that
  accepts the lists at hand, and shows which list and which type the program passes.
\<close>

definition accepting :: "(pyval \<times> arrow_type) pa_array" where
  "accepting v ty = Inr (v, ty)"

text \<open>
  A world in which the three calls answer 200 with the given values under the keys the
  program reads.
\<close>

definition answering :: "pyval \<Rightarrow> pyval \<Rightarrow> pyval \<Rightarrow> real \<Rightarrow> int \<Rightarrow> world" where
  "answering q g p t ns =
     \<lparr>joint_resp = Response 200 (PDict [(''q'', q)]),
      gripper_resp = Response 200 (PDict [(''gripper'', g)]),
      pose_resp = Response 200 (PDict [(''pose'', p)]),
      time_now = t, time_ns_now = ns\<rparr>"

section \<open>Properties of the tracker\<close>

lemma cur_in_range_iff: "cur_in_range d \<longleftrightarrow> 0.02 < d \<and> d < 0.7"
  by (simp add: cur_in_range_def min_gripper_distance_def max_gripper_catch_distance_def)

text \<open>
  Claim C2. A distance at or below 0.02, or at or above 0.7 (both bounds included), is out
  of range: whatever the state was, the update clears it (\<open>in_range\<close> false,
  \<open>enter_time\<close> \<open>None\<close>, \<open>is_stable_grasp\<close> false) and the flag is 0.
\<close>

theorem out_of_band_resets:
  assumes "d \<le> 0.02 \<or> d \<ge> 0.7"
  shows "\<not> cur_in_range d \<and>
         update_grasp_state gs d now =
           Inr \<lparr>in_range = False, enter_time = None, is_stable_grasp = False\<rparr> \<and>
         (\<exists>gs'. update_grasp_state gs d now = Inr gs' \<and> stable_flag gs' = 0)"
proof -
  have nr: "\<not> cur_in_range d"
    using assms by (auto simp: cur_in_range_iff)
  then have "update_grasp_state gs d now =
           Inr \<lparr>in_range = False, enter_time = None, is_stable_grasp = False\<rparr>"
    by (simp add: update_grasp_state_def)
  with nr show ?thesis
    by (simp add: stable_flag_def)
qed

theorem out_of_band_resets_witness:
  "((0.02::real) \<le> 0.02 \<or> (0.02::real) \<ge> 0.7) \<and>
   update_grasp_state
     \<lparr>in_range = True, enter_time = Some 1, is_stable_grasp = True\<rparr> 0.02 5 =
     Inr \<lparr>in_range = False, enter_time = None, is_stable_grasp = False\<rparr> \<and>
   update_grasp_state
     \<lparr>in_range = True, enter_time = Some 1, is_stable_grasp = True\<rparr> 0.7 5 =
     Inr \<lparr>in_range = False, enter_time = None, is_stable_grasp = False\<rparr>"
  using out_of_band_resets [of "0.02" "\<lparr>in_range = True, enter_time = Some 1, is_stable_grasp = True\<rparr>" 5]
    out_of_band_resets [of "0.7" "\<lparr>in_range = True, enter_time = Some 1, is_stable_grasp = True\<rparr>" 5]
  by simp

text \<open>
  Claim C3. An in-band distance met in a state that is not in range is a fresh entry:
  \<open>enter_time\<close> becomes the timestamp of the call, \<open>in_range\<close> true and
  \<open>is_stable_grasp\<close> false, so the flag of that tick is 0, whatever the state held
  before. The dwell time starts again from that timestamp: the next in-band tick is
  stable exactly when it lies at least \<open>GRASP_STABLE_DURATION\<close> after the entry.
\<close>

theorem fresh_entry_restarts:
  assumes "cur_in_range d" and "\<not> in_range gs"
  shows "(\<exists>gs'. update_grasp_state gs d now = Inr gs' \<and>
            gs' = \<lparr>in_range = True, enter_time = Some now, is_stable_grasp = False\<rparr> \<and>
            stable_flag gs' = 0) \<and>
         (cur_in_range d2 \<longrightarrow>
            update_seq gs [(d, now), (d2, now2)] =
              Inr [0, if now2 - now \<ge> GRASP_STABLE_DURATION then 1 else 0])"
proof -
  let ?g = "\<lparr>in_range = True, enter_time = Some now, is_stable_grasp = False\<rparr>"
  have step: "update_grasp_state gs d now = Inr ?g"
    using assms by (simp add: update_grasp_state_def)
  have flag: "stable_flag ?g = 0"
    by (simp add: stable_flag_def)
  have "update_seq gs [(d, now), (d2, now2)] =
          Inr [0, if now2 - now \<ge> GRASP_STABLE_DURATION then 1 else 0]"
    if "cur_in_range d2"
    using that step flag by (simp add: update_grasp_state_def stable_flag_def Let_def)
  with step flag show ?thesis by blast
qed

theorem fresh_entry_restarts_witness:
  "cur_in_range 0.5 \<and>
   \<not> in_range \<lparr>in_range = False, enter_time = None, is_stable_grasp = True\<rparr> \<and>
   update_grasp_state
     \<lparr>in_range = False, enter_time = None, is_stable_grasp = True\<rparr> 0.5 7 =
     Inr \<lparr>in_range = True, enter_time = Some 7, is_stable_grasp = False\<rparr> \<and>
   update_seq \<lparr>in_range = False, enter_time = None, is_stable_grasp = True\<rparr>
     [(0.5, 7), (0.5, 7.5)] = Inr [0, 0]"
proof -
  have a: "cur_in_range 0.5"
    by (simp add: cur_in_range_iff)
  have b: "\<not> in_range \<lparr>in_range = False, enter_time = None, is_stable_grasp = True\<rparr>"
    by simp
  show ?thesis
    using a fresh_entry_restarts [OF a b, of 7 "0.5" "7.5"]
    by (simp add: GRASP_STABLE_DURATION_def del: update_seq.simps)
qed

text \<open>
  Claim C4. The invariants hold in the initial state and every update of a state that
  satisfies them returns a state that satisfies them (and raises nothing):
  \<open>enter_time\<close> is set exactly when \<open>in_range\<close> is true, and \<open>is_stable_grasp\<close>
  implies \<open>in_range\<close>.
\<close>

theorem grasp_inv_preserved:
  "grasp_inv initial_grasp_state \<and>
   (grasp_inv gs \<longrightarrow> (\<exists>gs'. update_grasp_state gs d now = Inr gs' \<and> grasp_inv gs'))"
  by (auto simp: grasp_inv_def initial_grasp_state_def update_grasp_state_def Let_def)

theorem grasp_inv_preserved_witness:
  "grasp_inv \<lparr>in_range = True, enter_time = Some 1, is_stable_grasp = False\<rparr> \<and>
   (\<exists>gs'. update_grasp_state
            \<lparr>in_range = True, enter_time = Some 1, is_stable_grasp = False\<rparr> 0.5 2 = Inr gs' \<and>
          grasp_inv gs')"
proof -
  have a: "grasp_inv \<lparr>in_range = True, enter_time = Some 1, is_stable_grasp = False\<rparr>"
    by (simp add: grasp_inv_def)
  show ?thesis
    using a grasp_inv_preserved
      [of "\<lparr>in_range = True, enter_time = Some 1, is_stable_grasp = False\<rparr>" "0.5" 2]
    by blast
qed

section \<open>Facts about the fetch and the event loop\<close>

lemma getitems_length: "getitems v idxs = Inr xs \<Longrightarrow> length xs = length idxs"
  by (induction idxs arbitrary: xs) (auto split: sum.splits)

lemma get_joint_success:
  "get_joint r a = Inr a' \<Longrightarrow> success a' = success a \<and> gripper_raw a' = gripper_raw a \<and> pose a' = pose a"
  "get_joint r a = Inl (e, a') \<Longrightarrow> a' = a"
  by (auto simp: get_joint_def split: http_result.splits if_splits sum.splits)

lemma get_gripper_success:
  "get_gripper r a = Inr a' \<Longrightarrow> success a' = success a \<and> jointstate a' = jointstate a \<and> pose a' = pose a"
  "get_gripper r a = Inl (e, a') \<Longrightarrow> a' = a"
  by (auto simp: get_gripper_def split: http_result.splits if_splits sum.splits)

lemma get_pose_success:
  "get_pose r a = Inr a' \<Longrightarrow> success a' = success a \<and> jointstate a' = jointstate a \<and> gripper_raw a' = gripper_raw a
     \<and> (pose a' = pose a \<or> (\<exists>ps. pose a' = PList ps \<and> length ps = 6))"
  "get_pose r a = Inl (e, a') \<Longrightarrow> a' = a"
  by (auto simp: get_pose_def split: http_result.splits if_splits sum.splits dest: getitems_length)

lemma try_body_raise_no_success:
  "try_body w a = Inl (e, a') \<Longrightarrow> success a' = success a"
  by (auto simp: try_body_def split: sum.splits dest: get_joint_success get_gripper_success get_pose_success)

lemma try_body_success:
  assumes "try_body w initial_arm_data = Inr a" and "success a"
  shows "jointstate a \<noteq> PNone \<and> (\<exists>g. gripper_raw a = Some g \<and> g \<noteq> PNone) \<and>
         (\<exists>ps. pose a = PList ps \<and> length ps = 6)"
proof -
  from assms(1) obtain a1 a2 a3 where
    s1: "get_joint (joint_resp w) initial_arm_data = Inr a1" and
    s2: "get_gripper (gripper_resp w) a1 = Inr a2" and
    s3: "get_pose (pose_resp w) a2 = Inr a3" and
    a: "a = mark_success a3"
    by (auto simp: try_body_def split: sum.splits)
  have ns: "\<not> success a3" and p3: "pose a3 = PNone \<or> (\<exists>ps. pose a3 = PList ps \<and> length ps = 6)"
    using get_joint_success(1) [OF s1] get_gripper_success(1) [OF s2] get_pose_success(1) [OF s3]
    by (auto simp: initial_arm_data_def)
  from ns a assms(2) have m: "jointstate a3 \<noteq> PNone"
      "(case gripper_raw a3 of None \<Rightarrow> PNone | Some g \<Rightarrow> g) \<noteq> PNone" "pose a3 \<noteq> PNone"
    and eq: "a = a3\<lparr>success := True\<rparr>"
    by (auto simp: mark_success_def split: if_splits)
  from m(2) obtain g where "gripper_raw a3 = Some g" "g \<noteq> PNone"
    by (cases "gripper_raw a3") auto
  with m p3 eq show ?thesis by auto
qed

lemma get_arm_data_success:
  assumes "get_arm_data w = Inr a" and "success a"
  shows "jointstate a \<noteq> PNone \<and> (\<exists>g. gripper_raw a = Some g \<and> g \<noteq> PNone) \<and>
         (\<exists>ps. pose a = PList ps \<and> length ps = 6)"
proof (cases "try_body w initial_arm_data")
  case (Inr b)
  with assms show ?thesis using try_body_success [of w a] by (simp add: get_arm_data_def)
next
  case (Inl x)
  obtain e b where x: "x = (e, b)" by (cases x)
  with Inl assms(1) have "b = a" by (simp add: get_arm_data_def split: if_splits)
  with try_body_raise_no_success [of w initial_arm_data e b] Inl x assms(2)
  show ?thesis by (simp add: initial_arm_data_def)
qed

lemma request_exception_not_raised: "get_arm_data w \<noteq> Inl RequestException"
  by (auto simp: get_arm_data_def split: sum.splits prod.splits)

lemma grasp_inv_update:
  "grasp_inv gs \<Longrightarrow> \<exists>gs'. update_grasp_state gs d now = Inr gs' \<and> grasp_inv gs'"
  by (auto simp: grasp_inv_def update_grasp_state_def Let_def)

lemma success_needs_three_200:
  assumes "get_arm_data w = Inr a" and "success a"
  shows "(\<exists>b. joint_resp w = Response 200 b) \<and> (\<exists>b. gripper_resp w = Response 200 b) \<and>
         (\<exists>b. pose_resp w = Response 200 b)"
proof -
  have f: "jointstate a \<noteq> PNone" "gripper_raw a \<noteq> None" "pose a \<noteq> PNone"
    using get_arm_data_success [OF assms] by auto
  from assms have "try_body w initial_arm_data = Inr a"
    using try_body_raise_no_success [of w initial_arm_data]
    by (auto simp: get_arm_data_def initial_arm_data_def split: sum.splits prod.splits if_splits)
  then obtain a1 a2 a3 where
    s1: "get_joint (joint_resp w) initial_arm_data = Inr a1" and
    s2: "get_gripper (gripper_resp w) a1 = Inr a2" and
    s3: "get_pose (pose_resp w) a2 = Inr a3" and
    a: "a = mark_success a3"
    by (auto simp: try_body_def split: sum.splits)
  have j3: "jointstate a3 \<noteq> PNone" and g3: "gripper_raw a3 \<noteq> None" and p3: "pose a3 \<noteq> PNone"
    using f a by (auto simp: mark_success_def split: if_splits)
  from j3 get_pose_success(1) [OF s3] get_gripper_success(1) [OF s2]
  have "jointstate a1 \<noteq> PNone" by simp
  with s1 have c1: "\<exists>b. joint_resp w = Response 200 b"
    by (auto simp: get_joint_def initial_arm_data_def split: http_result.splits if_splits)
  from g3 get_pose_success(1) [OF s3] have g2: "gripper_raw a2 \<noteq> None" by simp
  from get_joint_success(1) [OF s1] have "gripper_raw a1 = None"
    by (simp add: initial_arm_data_def)
  with s2 g2 have c2: "\<exists>b. gripper_resp w = Response 200 b"
    by (auto simp: get_gripper_def split: http_result.splits if_splits)
  from get_joint_success(1) [OF s1] get_gripper_success(1) [OF s2] have "pose a2 = PNone"
    by (simp add: initial_arm_data_def)
  with s3 p3 have c3: "\<exists>b. pose_resp w = Response 200 b"
    by (auto simp: get_pose_def split: http_result.splits if_splits)
  from c1 c2 c3 show ?thesis by blast
qed

lemma request_failed_returns:
  "joint_resp w = RequestFailed \<Longrightarrow> get_arm_data w = Inr initial_arm_data"
  by (simp add: get_arm_data_def try_body_def get_joint_def)

lemma escapes_from_body_lookup:
  assumes "get_arm_data w = Inl e"
  shows "(\<exists>b. joint_resp w = Response 200 b \<and> getitem_key b ''q'' = Inl e) \<or>
         (\<exists>b. gripper_resp w = Response 200 b \<and> getitem_key b ''gripper'' = Inl e) \<or>
         (\<exists>b. pose_resp w = Response 200 b \<and>
            (getitem_key b ''pose'' = Inl e \<or>
             (\<exists>p. getitem_key b ''pose'' = Inr p \<and> getitems p [0, 1, 2, 3, 4, 5] = Inl e)))"
proof -
  from assms obtain a where tb: "try_body w initial_arm_data = Inl (e, a)" and ne: "e \<noteq> RequestException"
    by (auto simp: get_arm_data_def split: sum.splits prod.splits if_splits)
  then consider
    (j) a0 where "get_joint (joint_resp w) initial_arm_data = Inl (e, a0)"
  | (g) a1 a0 where "get_gripper (gripper_resp w) a1 = Inl (e, a0)"
  | (p) a2 a0 where "get_pose (pose_resp w) a2 = Inl (e, a0)"
    by (auto simp: try_body_def split: sum.splits)
  then show ?thesis
  proof cases
    case j
    with ne show ?thesis
      by (auto simp: get_joint_def split: http_result.splits if_splits sum.splits)
  next
    case g
    with ne show ?thesis
      by (auto simp: get_gripper_def split: http_result.splits if_splits sum.splits)
  next
    case p
    with ne have "\<exists>b. pose_resp w = Response 200 b \<and>
            (getitem_key b ''pose'' = Inl e \<or>
             (\<exists>p. getitem_key b ''pose'' = Inr p \<and> getitems p [0, 1, 2, 3, 4, 5] = Inl e))"
      by (auto simp: get_pose_def split: http_result.splits if_splits sum.splits)
    then show ?thesis by blast
  qed
qed

lemma timeout_world:
  "get_arm_data \<lparr>joint_resp = Response 200 (PDict [(''q'', PList [PFloat 0])]),
       gripper_resp = RequestFailed, pose_resp = RequestFailed,
       time_now = 5, time_ns_now = 5000000000\<rparr> =
     Inr \<lparr>jointstate = PList [PFloat 0], gripper = PNone, pose = PNone, success = False,
          gripper_raw = None\<rparr>"
  by (simp add: get_arm_data_def try_body_def get_joint_def get_gripper_def initial_arm_data_def)


section \<open>Facts about a run inside the band\<close>

lemma in_run_step:
  assumes "in_range gs" and "enter_time gs = Some entered" and "cur_in_range d"
  shows "update_grasp_state gs d now =
           Inr (if now - entered \<ge> GRASP_STABLE_DURATION then gs\<lparr>is_stable_grasp := True\<rparr> else gs)"
  using assms by (simp add: update_grasp_state_def Let_def)

lemma ex_le_Suc_split: "(\<exists>j\<le>Suc k. P j) \<longleftrightarrow> P 0 \<or> (\<exists>j\<le>k. P (Suc j))"
proof
  assume "\<exists>j\<le>Suc k. P j"
  then obtain j where j: "j \<le> Suc k" "P j" by blast
  show "P 0 \<or> (\<exists>j\<le>k. P (Suc j))"
  proof (cases j)
    case 0
    with j show ?thesis by simp
  next
    case (Suc m)
    with j show ?thesis by auto
  qed
next
  assume "P 0 \<or> (\<exists>j\<le>k. P (Suc j))"
  then show "\<exists>j\<le>Suc k. P j" by auto
qed

lemma in_run_flags:
  assumes "in_range gs" and "enter_time gs = Some entered"
    and "list_all (\<lambda>(d, t). cur_in_range d) samples"
  shows "\<exists>flags. update_seq gs samples = Inr flags \<and> length flags = length samples \<and>
           (\<forall>i<length samples. flags ! i =
              (if is_stable_grasp gs \<or> (\<exists>j\<le>i. snd (samples ! j) - entered \<ge> GRASP_STABLE_DURATION)
               then 1 else 0))"
  using assms
proof (induction samples arbitrary: gs)
  case Nil
  then show ?case by simp
next
  case (Cons s rest)
  obtain d t where s: "s = (d, t)" by (cases s)
  let ?g = "if t - entered \<ge> GRASP_STABLE_DURATION then gs\<lparr>is_stable_grasp := True\<rparr> else gs"
  from Cons.prems s have din: "cur_in_range d" and restin: "list_all (\<lambda>(d, t). cur_in_range d) rest"
    by simp_all
  have step: "update_grasp_state gs d t = Inr ?g"
    using in_run_step [OF Cons.prems(1,2) din] .
  have g1: "in_range ?g" and g2: "enter_time ?g = Some entered"
    using Cons.prems by simp_all
  have gst: "is_stable_grasp ?g \<longleftrightarrow> is_stable_grasp gs \<or> t - entered \<ge> GRASP_STABLE_DURATION"
    by simp
  from Cons.IH [OF g1 g2 restin] obtain flags where
    fl: "update_seq ?g rest = Inr flags" "length flags = length rest"
      "\<forall>i<length rest. flags ! i =
         (if is_stable_grasp ?g \<or> (\<exists>j\<le>i. snd (rest ! j) - entered \<ge> GRASP_STABLE_DURATION)
          then 1 else 0)"
    by blast
  have run: "update_seq gs (s # rest) = Inr (stable_flag ?g # flags)"
    using step fl(1) s by simp
  have "(stable_flag ?g # flags) ! i =
          (if is_stable_grasp gs \<or> (\<exists>j\<le>i. snd ((s # rest) ! j) - entered \<ge> GRASP_STABLE_DURATION)
           then 1 else 0)" if "i < length (s # rest)" for i
  proof (cases i)
    case 0
    then show ?thesis using gst s by (simp add: stable_flag_def)
  next
    case (Suc k)
    with that have k: "k < length rest" by simp
    have "(stable_flag ?g # flags) ! i = flags ! k" using Suc by simp
    also have "\<dots> = (if is_stable_grasp ?g \<or> (\<exists>j\<le>k. snd (rest ! j) - entered \<ge> GRASP_STABLE_DURATION)
          then 1 else 0)" using fl(3) k by blast
    also have "\<dots> = (if is_stable_grasp gs \<or> (\<exists>j\<le>i. snd ((s # rest) ! j) - entered \<ge> GRASP_STABLE_DURATION)
           then 1 else 0)"
      unfolding gst Suc ex_le_Suc_split [of k "\<lambda>j. snd ((s # rest) ! j) - entered \<ge> GRASP_STABLE_DURATION"]
      using s by simp
    finally show ?thesis .
  qed
  with run fl(2) show ?case by auto
qed

text \<open>
  Claim C1. In a state that is already in range, an in-band sample sets
  \<open>is_stable_grasp\<close> to true exactly when \<open>now - enter_time \<ge> GRASP_STABLE_DURATION\<close>
  and changes nothing otherwise. Over a run of in-band samples the flag of a tick is 1
  exactly when the state was stable before the run or some tick of the run up to this one
  met the duration: the flag becomes 1 at the first such tick and is 1 on every later tick
  of the run.
\<close>

theorem stable_within_run:
  assumes "in_range gs" and "enter_time gs = Some entered"
    and "list_all (\<lambda>(d, t). cur_in_range d) samples"
  shows "(cur_in_range d \<longrightarrow>
            update_grasp_state gs d now =
              Inr (if now - entered \<ge> GRASP_STABLE_DURATION
                   then gs\<lparr>is_stable_grasp := True\<rparr> else gs)) \<and>
         (\<exists>flags. update_seq gs samples = Inr flags \<and> length flags = length samples \<and>
            (\<forall>i<length samples. flags ! i =
               (if is_stable_grasp gs \<or>
                   (\<exists>j\<le>i. snd (samples ! j) - entered \<ge> GRASP_STABLE_DURATION)
                then 1 else 0)) \<and>
            (\<forall>i k. i \<le> k \<and> k < length samples \<and> flags ! i = 1 \<longrightarrow> flags ! k = 1))"
proof -
  from in_run_flags [OF assms] obtain flags where
    fl: "update_seq gs samples = Inr flags" "length flags = length samples"
      "\<forall>i<length samples. flags ! i =
         (if is_stable_grasp gs \<or> (\<exists>j\<le>i. snd (samples ! j) - entered \<ge> GRASP_STABLE_DURATION)
          then 1 else 0)"
    by blast
  have mono: "flags ! k = 1" if "i \<le> k" "k < length samples" "flags ! i = 1" for i k
  proof -
    from that have "i < length samples" by simp
    with fl(3) that(3) have
      "is_stable_grasp gs \<or> (\<exists>j\<le>i. snd (samples ! j) - entered \<ge> GRASP_STABLE_DURATION)"
      by (auto split: if_splits)
    with that(1) have
      "is_stable_grasp gs \<or> (\<exists>j\<le>k. snd (samples ! j) - entered \<ge> GRASP_STABLE_DURATION)"
      by (meson le_trans)
    with fl(3) that(2) show ?thesis by simp
  qed
  have step: "cur_in_range d \<longrightarrow>
            update_grasp_state gs d now =
              Inr (if now - entered \<ge> GRASP_STABLE_DURATION
                   then gs\<lparr>is_stable_grasp := True\<rparr> else gs)"
    using in_run_step [OF assms(1,2)] by blast
  from fl mono step show ?thesis by blast
qed

theorem stable_within_run_witness:
  "in_range \<lparr>in_range = True, enter_time = Some 0, is_stable_grasp = False\<rparr> \<and>
   enter_time \<lparr>in_range = True, enter_time = Some 0, is_stable_grasp = False\<rparr> = Some 0 \<and>
   list_all (\<lambda>(d, t). cur_in_range d) [(0.5, 0.3 :: real), (0.5, 0.9), (0.6, 0.4)] \<and>
   cur_in_range 0.5 \<and>
   update_grasp_state \<lparr>in_range = True, enter_time = Some 0, is_stable_grasp = False\<rparr> 0.5 1 =
     Inr \<lparr>in_range = True, enter_time = Some 0, is_stable_grasp = True\<rparr> \<and>
   (\<exists>flags. update_seq \<lparr>in_range = True, enter_time = Some 0, is_stable_grasp = False\<rparr>
        [(0.5, 0.3), (0.5, 0.9), (0.6, 0.4)] = Inr flags \<and>
      flags ! 0 = 0 \<and> flags ! 1 = 1 \<and> flags ! 2 = 1)"
proof -
  let ?gs = "\<lparr>in_range = True, enter_time = Some 0, is_stable_grasp = False\<rparr>"
  let ?samples = "[(0.5, 0.3), (0.5, 0.9), (0.6, 0.4)] :: (real \<times> real) list"
  have a: "in_range ?gs" and b: "enter_time ?gs = Some 0" by simp_all
  have c: "list_all (\<lambda>(d, t). cur_in_range d) ?samples"
    by (simp add: cur_in_range_iff)
  have d: "cur_in_range 0.5"
    by (simp add: cur_in_range_iff)
  note inst = stable_within_run [OF a b c, of "0.5" 1]
  from inst d have "update_grasp_state ?gs 0.5 1 =
      Inr (if 1 - 0 \<ge> GRASP_STABLE_DURATION then ?gs\<lparr>is_stable_grasp := True\<rparr> else ?gs)"
    by blast
  then have step: "update_grasp_state ?gs 0.5 1 =
      Inr \<lparr>in_range = True, enter_time = Some 0, is_stable_grasp = True\<rparr>"
    by (simp add: GRASP_STABLE_DURATION_def)
  from inst obtain flags where
    fl: "update_seq ?gs ?samples = Inr flags"
      "\<forall>i<length ?samples. flags ! i =
         (if is_stable_grasp ?gs \<or> (\<exists>j\<le>i. snd (?samples ! j) - 0 \<ge> GRASP_STABLE_DURATION)
          then 1 else 0)"
    by blast
  from fl(2) have f0: "flags ! 0 = 0"
    by (simp add: GRASP_STABLE_DURATION_def)
  from fl(2) have
    "flags ! 1 = (if \<exists>j\<le>1. snd (?samples ! j) \<ge> GRASP_STABLE_DURATION then 1 else 0)"
    by simp
  then have f1: "flags ! 1 = 1"
    by (auto simp: GRASP_STABLE_DURATION_def)
  from fl(2) have
    "flags ! 2 = (if \<exists>j\<le>2. snd (?samples ! j) \<ge> GRASP_STABLE_DURATION then 1 else 0)"
    by simp
  then have f2: "flags ! 2 = 1"
    by (auto simp: GRASP_STABLE_DURATION_def intro: exI [of _ 1])
  from a b c d step fl(1) f0 f1 f2 show ?thesis by blast
qed

section \<open>Facts about the tick and the event loop\<close>



lemma handle_tick: "handle_event pa gs tick_event w = process_tick pa gs w"
  by (simp add: handle_event_def tick_event_def)

lemma stop_is_ignored: "handle_event pa gs stop_event w = Inr (gs, [])"
  by (simp add: handle_event_def stop_event_def)

lemma stop_event_skipped: "main_loop pa gs ((stop_event, w) # rest) = main_loop pa gs rest"
  by (simp add: stop_is_ignored)

lemma answering_get_arm_data:
  assumes "q \<noteq> PNone" and "g \<noteq> PNone"
  shows "get_arm_data (answering q g (PList [p0, p1, p2, p3, p4, p5]) t ns) =
     Inr \<lparr>jointstate = q, gripper = PNone, pose = PList [p0, p1, p2, p3, p4, p5],
          success = True, gripper_raw = Some g\<rparr>"
  using assms
  by (simp add: get_arm_data_def try_body_def answering_def get_joint_def get_gripper_def
      get_pose_def mark_success_def initial_arm_data_def)

lemma answering_times:
  "time_now (answering q g p t ns) = t" "time_ns_now (answering q g p t ns) = ns"
  by (simp_all add: answering_def)

lemma process_tick_state:
  assumes "grasp_inv gs"
  shows "process_tick pa gs w = Inr (gs', outs) \<Longrightarrow> grasp_inv gs'"
    and "process_tick pa gs w = Inl (e, at_raise) \<Longrightarrow> grasp_inv at_raise"
proof -
  have cases: "st = gs \<or> (\<exists>d. update_grasp_state gs d (time_now w) = Inr st)"
    if "process_tick pa gs w = Inr (st, outs) \<or> process_tick pa gs w = Inl (e, st)"
    for st outs e
    using that
    by (auto simp: process_tick_def Let_def split: sum.splits if_splits option.splits)
  have inv: "grasp_inv st" if "st = gs \<or> (\<exists>d. update_grasp_state gs d (time_now w) = Inr st)" for st
    using that assms grasp_inv_update [OF assms] by (metis Inr_inject)
  show "process_tick pa gs w = Inr (gs', outs) \<Longrightarrow> grasp_inv gs'"
    using cases [of gs' outs] inv by blast
  show "process_tick pa gs w = Inl (e, at_raise) \<Longrightarrow> grasp_inv at_raise"
    using cases [of at_raise _ e] inv by blast
qed

lemma handle_event_inv:
  assumes "grasp_inv gs"
  shows "handle_event pa gs ev w = Inr (gs', outs) \<Longrightarrow> grasp_inv gs'"
    and "handle_event pa gs ev w = Inl (e, at_raise) \<Longrightarrow> grasp_inv at_raise"
  using assms process_tick_state [OF assms]
  by (auto simp: handle_event_def split: if_splits)

lemma main_loop_inv:
  "grasp_inv gs \<Longrightarrow> grasp_inv (fst (snd (main_loop pa gs events)))"
proof (induction events arbitrary: gs)
  case Nil
  then show ?case by simp
next
  case (Cons x events)
  obtain ev w where x: "x = (ev, w)" by (cases x)
  show ?case
  proof (cases "handle_event pa gs ev w")
    case (Inl r)
    obtain e st where r: "r = (e, st)" by (cases r)
    from handle_event_inv(2) [OF Cons.prems] Inl r have "grasp_inv st" by simp
    with x Inl r show ?thesis by simp
  next
    case (Inr r)
    obtain gs1 o1 where r: "r = (gs1, o1)" by (cases r)
    from handle_event_inv(1) [OF Cons.prems] Inr r have "grasp_inv gs1" by simp
    from Cons.IH [OF this] x Inr r show ?thesis
      by (auto split: prod.splits)
  qed
qed

lemma handle_tick_answering:
  "handle_event pa gs tick_event
     (answering (PList qs) (PFloat d) (PList [p0, p1, p2, p3, p4, p5]) t ns) =
     (case update_grasp_state gs d t of
        Inl e \<Rightarrow> Inl (e, gs)
      | Inr gs' \<Rightarrow>
          (case pa (PList (qs @ [PFloat d, PInt (stable_flag gs')] @ [p0, p1, p2, p3, p4, p5]))
                  Float32 of
             Inl e \<Rightarrow> Inl (e, gs')
           | Inr arr \<Rightarrow>
               Inr (gs', [\<lparr>channel = ''jointstate'', payload = arr, timestamp = ns\<rparr>])))"
  by (simp add: handle_tick process_tick_def answering_get_arm_data answering_times Let_def
      split: sum.splits)

lemma main_loop_answering:
  assumes "grasp_inv gs" and "\<And>v. pa v Float32 = Inr (conv v)"
  shows "\<exists>flags. update_seq gs samples = Inr flags \<and> length flags = length samples \<and>
     map payload (fst (main_loop pa gs
        (map (\<lambda>(d, t). (tick_event,
            answering (PList qs) (PFloat d) (PList [p0, p1, p2, p3, p4, p5]) t ns)) samples))) =
     map (\<lambda>((d, t), f). conv (PList (qs @ [PFloat d, PInt f] @ [p0, p1, p2, p3, p4, p5])))
       (zip samples flags)"
  using assms(1)
proof (induction samples arbitrary: gs)
  case Nil
  then show ?case by simp
next
  case (Cons s samples)
  obtain d t where s: "s = (d, t)" by (cases s)
  from grasp_inv_update [OF Cons.prems, of d t] obtain gs' where
    up: "update_grasp_state gs d t = Inr gs'" and inv': "grasp_inv gs'"
    by blast
  from Cons.IH [OF inv'] obtain flags where
    fl: "update_seq gs' samples = Inr flags" "length flags = length samples"
     "map payload (fst (main_loop pa gs'
        (map (\<lambda>(d, t). (tick_event,
            answering (PList qs) (PFloat d) (PList [p0, p1, p2, p3, p4, p5]) t ns)) samples))) =
     map (\<lambda>((d, t), f). conv (PList (qs @ [PFloat d, PInt f] @ [p0, p1, p2, p3, p4, p5])))
       (zip samples flags)"
    by blast
  have "update_seq gs (s # samples) = Inr (stable_flag gs' # flags)"
    using s up fl(1) by simp
  moreover have "map payload (fst (main_loop pa gs
        (map (\<lambda>(d, t). (tick_event,
            answering (PList qs) (PFloat d) (PList [p0, p1, p2, p3, p4, p5]) t ns)) (s # samples)))) =
     map (\<lambda>((d, t), f). conv (PList (qs @ [PFloat d, PInt f] @ [p0, p1, p2, p3, p4, p5])))
       (zip (s # samples) (stable_flag gs' # flags))"
    using s up fl(3) assms(2) by (auto simp: handle_tick_answering split: prod.splits)
  ultimately show ?case using fl(2) by simp
qed

lemmas tick_eval = handle_tick_answering update_grasp_state_def cur_in_range_iff
  GRASP_STABLE_DURATION_def stable_flag_def Let_def

lemma conversion_failure_ends_loop:
  assumes "update_grasp_state gs d t = Inr gs'"
    and "pa (PList (qs @ [PFloat d, PInt (stable_flag gs')] @ [p0, p1, p2, p3, p4, p5]))
           Float32 = Inl e"
  shows "main_loop pa gs
           ((tick_event, answering (PList qs) (PFloat d) (PList [p0, p1, p2, p3, p4, p5]) t ns)
              # rest) = ([], gs', Some e)"
  using assms by (simp add: handle_tick_answering)

section \<open>Properties of the fetch and the event loop\<close>

text \<open>
  Claim C5. A tick whose fetch returns with \<open>success\<close> false sends nothing and leaves
  the tracking state as it was, so the loop goes on exactly as if that tick had not been
  delivered: a later tick measures its dwell time from the same \<open>enter_time\<close>.
\<close>

theorem failed_fetch_leaves_state:
  assumes "get_arm_data w = Inr a" and "\<not> success a"
  shows "handle_event pa gs tick_event w = Inr (gs, []) \<and>
         main_loop pa gs ((tick_event, w) # rest) = main_loop pa gs rest"
proof -
  have "handle_event pa gs tick_event w = Inr (gs, [])"
    using assms by (simp add: handle_event_def tick_event_def process_tick_def)
  then show ?thesis by simp
qed

theorem failed_fetch_leaves_state_witness:
  "get_arm_data \<lparr>joint_resp = Response 200 (PDict [(''q'', PList [PFloat 0])]),
       gripper_resp = RequestFailed, pose_resp = RequestFailed,
       time_now = 5, time_ns_now = 5000000000\<rparr> =
     Inr \<lparr>jointstate = PList [PFloat 0], gripper = PNone, pose = PNone, success = False,
          gripper_raw = None\<rparr> \<and>
   \<not> success \<lparr>jointstate = PList [PFloat 0], gripper = PNone, pose = PNone, success = False,
          gripper_raw = None\<rparr> \<and>
   handle_event accepting \<lparr>in_range = True, enter_time = Some 1, is_stable_grasp = True\<rparr>
     tick_event
     \<lparr>joint_resp = Response 200 (PDict [(''q'', PList [PFloat 0])]),
       gripper_resp = RequestFailed, pose_resp = RequestFailed,
       time_now = 5, time_ns_now = 5000000000\<rparr> =
     Inr (\<lparr>in_range = True, enter_time = Some 1, is_stable_grasp = True\<rparr>, []) \<and>
   main_loop accepting \<lparr>in_range = True, enter_time = Some 1, is_stable_grasp = True\<rparr>
     [(tick_event,
       \<lparr>joint_resp = Response 200 (PDict [(''q'', PList [PFloat 0])]),
        gripper_resp = RequestFailed, pose_resp = RequestFailed,
        time_now = 5, time_ns_now = 5000000000\<rparr>),
      (tick_event, answering (PList [PFloat 0]) (PFloat 0.5)
         (PList (map PFloat [1, 2, 3, 4, 5, 6])) 6 6000000000)] =
   main_loop accepting \<lparr>in_range = True, enter_time = Some 1, is_stable_grasp = True\<rparr>
     [(tick_event, answering (PList [PFloat 0]) (PFloat 0.5)
         (PList (map PFloat [1, 2, 3, 4, 5, 6])) 6 6000000000)]"
proof -
  let ?w = "\<lparr>joint_resp = Response 200 (PDict [(''q'', PList [PFloat 0])]),
       gripper_resp = RequestFailed, pose_resp = RequestFailed,
       time_now = 5, time_ns_now = 5000000000\<rparr>"
  let ?a = "\<lparr>jointstate = PList [PFloat 0], gripper = PNone, pose = PNone, success = False,
          gripper_raw = None\<rparr>"
  let ?gs = "\<lparr>in_range = True, enter_time = Some 1, is_stable_grasp = True\<rparr>"
  let ?rest = "[(tick_event, answering (PList [PFloat 0]) (PFloat 0.5)
         (PList (map PFloat [1, 2, 3, 4, 5, 6])) 6 6000000000)]"
  have a: "get_arm_data ?w = Inr ?a" by (rule timeout_world)
  have b: "\<not> success ?a" by simp
  from failed_fetch_leaves_state [OF a b, of accepting ?gs ?rest] a b show ?thesis by blast
qed

text \<open>
  Claim C6. With the band (0.02, 0.7) and the duration 0.8, the distance 0.5 read at the
  times 0, 0.3, 0.9 and 1.5 from the initial state gives the flags 0, 0, 1, 1: for the
  update applied to the four samples, and in the loop, which for four successful ticks
  (seven joint angles, the distance, six pose values) sends the conversions of the lists
  carrying those flags, whenever the conversion accepts these two lists.
\<close>

theorem scenario_flags:
  "update_seq initial_grasp_state [(0.5, 0), (0.5, 0.3), (0.5, 0.9), (0.5, 1.5)] =
     Inr [0, 0, 1, 1] \<and>
   (pa (PList (map PFloat [0, 0, 0, 0, 0, 0, 0] @ [PFloat 0.5, PInt 0] @
               map PFloat [1, 2, 3, 4, 5, 6])) Float32 = Inr arr0 \<longrightarrow>
    pa (PList (map PFloat [0, 0, 0, 0, 0, 0, 0] @ [PFloat 0.5, PInt 1] @
               map PFloat [1, 2, 3, 4, 5, 6])) Float32 = Inr arr1 \<longrightarrow>
    map payload (fst (main pa
     [(tick_event, answering (PList (map PFloat [0, 0, 0, 0, 0, 0, 0])) (PFloat 0.5)
         (PList (map PFloat [1, 2, 3, 4, 5, 6])) 0 0),
      (tick_event, answering (PList (map PFloat [0, 0, 0, 0, 0, 0, 0])) (PFloat 0.5)
         (PList (map PFloat [1, 2, 3, 4, 5, 6])) 0.3 300000000),
      (tick_event, answering (PList (map PFloat [0, 0, 0, 0, 0, 0, 0])) (PFloat 0.5)
         (PList (map PFloat [1, 2, 3, 4, 5, 6])) 0.9 900000000),
      (tick_event, answering (PList (map PFloat [0, 0, 0, 0, 0, 0, 0])) (PFloat 0.5)
         (PList (map PFloat [1, 2, 3, 4, 5, 6])) 1.5 1500000000)])) =
     [arr0, arr0, arr1, arr1])"
proof -
  have "update_seq initial_grasp_state [(0.5, 0), (0.5, 0.3), (0.5, 0.9), (0.5, 1.5)] =
     Inr [0, 0, 1, 1]"
    by (simp add: initial_grasp_state_def update_grasp_state_def cur_in_range_iff
        GRASP_STABLE_DURATION_def stable_flag_def)
  then show ?thesis
    by (simp add: main_def initial_grasp_state_def tick_eval)
qed

theorem scenario_flags_witness:
  "accepting (PList (map PFloat [0, 0, 0, 0, 0, 0, 0] @ [PFloat 0.5, PInt 0] @
               map PFloat [1, 2, 3, 4, 5, 6])) Float32 =
     Inr (PList (map PFloat [0, 0, 0, 0, 0, 0, 0] @ [PFloat 0.5, PInt 0] @
               map PFloat [1, 2, 3, 4, 5, 6]), Float32) \<and>
   accepting (PList (map PFloat [0, 0, 0, 0, 0, 0, 0] @ [PFloat 0.5, PInt 1] @
               map PFloat [1, 2, 3, 4, 5, 6])) Float32 =
     Inr (PList (map PFloat [0, 0, 0, 0, 0, 0, 0] @ [PFloat 0.5, PInt 1] @
               map PFloat [1, 2, 3, 4, 5, 6]), Float32) \<and>
   map payload (fst (main accepting
     [(tick_event, answering (PList (map PFloat [0, 0, 0, 0, 0, 0, 0])) (PFloat 0.5)
         (PList (map PFloat [1, 2, 3, 4, 5, 6])) 0 0),
      (tick_event, answering (PList (map PFloat [0, 0, 0, 0, 0, 0, 0])) (PFloat 0.5)
         (PList (map PFloat [1, 2, 3, 4, 5, 6])) 0.3 300000000),
      (tick_event, answering (PList (map PFloat [0, 0, 0, 0, 0, 0, 0])) (PFloat 0.5)
         (PList (map PFloat [1, 2, 3, 4, 5, 6])) 0.9 900000000),
      (tick_event, answering (PList (map PFloat [0, 0, 0, 0, 0, 0, 0])) (PFloat 0.5)
         (PList (map PFloat [1, 2, 3, 4, 5, 6])) 1.5 1500000000)])) =
     [(PList (map PFloat [0, 0, 0, 0, 0, 0, 0, 0.5] @ [PInt 0] @ map PFloat [1, 2, 3, 4, 5, 6]),
        Float32),
      (PList (map PFloat [0, 0, 0, 0, 0, 0, 0, 0.5] @ [PInt 0] @ map PFloat [1, 2, 3, 4, 5, 6]),
        Float32),
      (PList (map PFloat [0, 0, 0, 0, 0, 0, 0, 0.5] @ [PInt 1] @ map PFloat [1, 2, 3, 4, 5, 6]),
        Float32),
      (PList (map PFloat [0, 0, 0, 0, 0, 0, 0, 0.5] @ [PInt 1] @ map PFloat [1, 2, 3, 4, 5, 6]),
        Float32)]"
proof -
  let ?l0 = "PList (map PFloat [0, 0, 0, 0, 0, 0, 0] @ [PFloat 0.5, PInt 0] @
               map PFloat [1, 2, 3, 4, 5, 6])"
  let ?l1 = "PList (map PFloat [0, 0, 0, 0, 0, 0, 0] @ [PFloat 0.5, PInt 1] @
               map PFloat [1, 2, 3, 4, 5, 6])"
  have a: "accepting ?l0 Float32 = Inr (?l0, Float32)"
    and b: "accepting ?l1 Float32 = Inr (?l1, Float32)"
    by (simp_all only: accepting_def)
  from scenario_flags [of accepting "(?l0, Float32)" "(?l1, Float32)"] a b
  have "map payload (fst (main accepting
     [(tick_event, answering (PList (map PFloat [0, 0, 0, 0, 0, 0, 0])) (PFloat 0.5)
         (PList (map PFloat [1, 2, 3, 4, 5, 6])) 0 0),
      (tick_event, answering (PList (map PFloat [0, 0, 0, 0, 0, 0, 0])) (PFloat 0.5)
         (PList (map PFloat [1, 2, 3, 4, 5, 6])) 0.3 300000000),
      (tick_event, answering (PList (map PFloat [0, 0, 0, 0, 0, 0, 0])) (PFloat 0.5)
         (PList (map PFloat [1, 2, 3, 4, 5, 6])) 0.9 900000000),
      (tick_event, answering (PList (map PFloat [0, 0, 0, 0, 0, 0, 0])) (PFloat 0.5)
         (PList (map PFloat [1, 2, 3, 4, 5, 6])) 1.5 1500000000)])) =
     [(?l0, Float32), (?l0, Float32), (?l1, Float32), (?l1, Float32)]"
    by blast
  with a b show ?thesis by simp
qed

text \<open>
  Claim C7. A fetch failure is meant to give a reading with \<open>success\<close> false and never
  to leave the fetch. For a response with status 200 whose JSON object lacks the field
  read from it, the lookup raises \<^verbatim>\<open>KeyError\<close>, which the handler of line 45 does not
  catch: the exception leaves \<open>get_arm_data\<close> and ends the loop, and the successful tick
  that follows is never handled.
\<close>

theorem missing_field_raises:
  "get_arm_data
     \<lparr>joint_resp = Response 200 (PDict []),
      gripper_resp = Response 200 (PDict [(''gripper'', PFloat 0.5)]),
      pose_resp = Response 200 (PDict [(''pose'', PList (map PFloat [1, 2, 3, 4, 5, 6]))]),
      time_now = 0, time_ns_now = 0\<rparr> = Inl KeyError \<and>
   main pa
     [(tick_event,
       \<lparr>joint_resp = Response 200 (PDict []),
        gripper_resp = Response 200 (PDict [(''gripper'', PFloat 0.5)]),
        pose_resp = Response 200 (PDict [(''pose'', PList (map PFloat [1, 2, 3, 4, 5, 6]))]),
        time_now = 0, time_ns_now = 0\<rparr>),
      (tick_event, answering (PList (map PFloat [0, 0, 0, 0, 0, 0, 0])) (PFloat 0.5)
         (PList (map PFloat [1, 2, 3, 4, 5, 6])) 1 1000000000)] =
     ([], initial_grasp_state, Some KeyError)"
proof -
  have "get_arm_data
     \<lparr>joint_resp = Response 200 (PDict []),
      gripper_resp = Response 200 (PDict [(''gripper'', PFloat 0.5)]),
      pose_resp = Response 200 (PDict [(''pose'', PList (map PFloat [1, 2, 3, 4, 5, 6]))]),
      time_now = 0, time_ns_now = 0\<rparr> = Inl KeyError"
    by (simp add: get_arm_data_def try_body_def get_joint_def initial_arm_data_def)
  then show ?thesis
    by (simp add: main_def handle_event_def tick_event_def process_tick_def)
qed

text \<open>
  Claim C8. After a stop event no tick should be handled and nothing should be sent. The
  stop branch only prints: the loop goes on, and a tick delivered after the stop event is
  fetched, updates the state and sends an output (here with a conversion that accepts
  the list; the stop event is skipped whatever the conversion does).
\<close>

theorem stop_does_not_end_loop:
  "main accepting
     [(stop_event, answering (PList (map PFloat [0, 0, 0, 0, 0, 0, 0])) (PFloat 0.5)
         (PList (map PFloat [1, 2, 3, 4, 5, 6])) 1 1000000000),
      (tick_event, answering (PList (map PFloat [0, 0, 0, 0, 0, 0, 0])) (PFloat 0.5)
         (PList (map PFloat [1, 2, 3, 4, 5, 6])) 2 2000000000)] =
     ([\<lparr>channel = ''jointstate'',
        payload =
          (PList (map PFloat [0, 0, 0, 0, 0, 0, 0, 0.5] @ [PInt 0] @
                  map PFloat [1, 2, 3, 4, 5, 6]), Float32),
        timestamp = 2000000000\<rparr>],
      \<lparr>in_range = True, enter_time = Some 2, is_stable_grasp = False\<rparr>, None)"
  by (simp add: main_def initial_grasp_state_def stop_is_ignored tick_eval accepting_def)

text \<open>
  Claim C10. Whenever \<open>get_arm_data\<close> returns a reading with \<open>success\<close> true, the
  joint angles, the raw gripper distance and the pose are all present (not \<^verbatim>\<open>None\<close>),
  and the pose is a list of six elements: the values read at line 72 and concatenated at
  lines 100 to 104 are never absent.
\<close>

theorem success_fields_present:
  assumes "get_arm_data w = Inr a" and "success a"
  shows "jointstate a \<noteq> PNone \<and>
         (\<exists>g. gripper_raw a = Some g \<and> g \<noteq> PNone) \<and>
         (\<exists>ps. pose a = PList ps \<and> length ps = 6)"
  using get_arm_data_success [OF assms] .

theorem success_fields_present_witness:
  "get_arm_data (answering (PList (map PFloat [0, 0, 0, 0, 0, 0, 0])) (PFloat 0.5)
       (PList (map PFloat [1, 2, 3, 4, 5, 6])) 10 10000000000) =
     Inr \<lparr>jointstate = PList (map PFloat [0, 0, 0, 0, 0, 0, 0]), gripper = PNone,
          pose = PList (map PFloat [1, 2, 3, 4, 5, 6]), success = True,
          gripper_raw = Some (PFloat 0.5)\<rparr> \<and>
   success \<lparr>jointstate = PList (map PFloat [0, 0, 0, 0, 0, 0, 0]), gripper = PNone,
          pose = PList (map PFloat [1, 2, 3, 4, 5, 6]), success = True,
          gripper_raw = Some (PFloat 0.5)\<rparr> \<and>
   jointstate \<lparr>jointstate = PList (map PFloat [0, 0, 0, 0, 0, 0, 0]), gripper = PNone,
          pose = PList (map PFloat [1, 2, 3, 4, 5, 6]), success = True,
          gripper_raw = Some (PFloat 0.5)\<rparr> \<noteq> PNone"
proof -
  let ?a = "\<lparr>jointstate = PList (map PFloat [0, 0, 0, 0, 0, 0, 0]), gripper = PNone,
          pose = PList (map PFloat [1, 2, 3, 4, 5, 6]), success = True,
          gripper_raw = Some (PFloat 0.5)\<rparr>"
  have a: "get_arm_data (answering (PList (map PFloat [0, 0, 0, 0, 0, 0, 0])) (PFloat 0.5)
       (PList (map PFloat [1, 2, 3, 4, 5, 6])) 10 10000000000) = Inr ?a"
    by (simp add: answering_get_arm_data)
  have b: "success ?a" by simp
  from success_fields_present [OF a b] a b show ?thesis by blast
qed




end
